theory Spec2Isabelle
  imports Complex_Main
begin

section \<open>Inkguiding: the overlay canvas and its interaction state machine\<close>

text \<open>
  A shallow embedding of \<^verbatim>\<open>src/Inkguiding.py\<close>: the \<^verbatim>\<open>Guide\<close> dataclass, the state
  of \<^verbatim>\<open>OverlayCanvas\<close> (guide list, hover index, positioning index, interactive flag)
  and its methods, the control panel's \<^verbatim>\<open>_emit_add\<close>, and the guide loop of
  \<^verbatim>\<open>MainWindow._load_settings\<close>. Python integers are \<open>int\<close>, \<^verbatim>\<open>Optional[int]\<close> is
  \<open>int option\<close>, and an exception is the \<open>Inl\<close> branch of a sum. Repaint requests
  (\<^verbatim>\<open>update()\<close>) and the \<^verbatim>\<open>guideChanged\<close> signal, which has no connected slot in the
  program, have no effect on the modelled state and are left out.
\<close>

subsection \<open>Python primitives\<close>

datatype py_error = IndexError | TypeError | AttributeError

text \<open>
  \<^verbatim>\<open>xs[i]\<close> on a Python list: a negative index counts from the end, anything outside
  \<open>-len .. len-1\<close> raises \<^verbatim>\<open>IndexError\<close>. The result is the resolved offset.
\<close>

definition py_index :: "'a list \<Rightarrow> int \<Rightarrow> py_error + nat" where
  "py_index xs i =
     (if 0 \<le> i \<and> i < int (length xs) then Inr (nat i)
      else if i < 0 \<and> - int (length xs) \<le> i then Inr (nat (int (length xs) + i))
      else Inl IndexError)"

text \<open>\<^verbatim>\<open>del xs[i]\<close>.\<close>

definition py_del :: "'a list \<Rightarrow> int \<Rightarrow> py_error + 'a list" where
  "py_del xs i =
     (case py_index xs i of
        Inl err \<Rightarrow> Inl err
      | Inr j \<Rightarrow> Inr (take j xs @ drop (Suc j) xs))"

subsection \<open>Constants and the Guide dataclass\<close>

definition GUIDE_HIT_RADIUS :: int where
  "GUIDE_HIT_RADIUS = 15"

definition GUIDE_DRAG_RADIUS :: int where
  "GUIDE_DRAG_RADIUS = 20"


type_synonym rgba = "int \<times> int \<times> int \<times> int"

record Guide =
  orientation :: string
  pos :: int
  color :: rgba
  thickness :: int
  style_name :: string

text \<open>
  \<^verbatim>\<open>Guide(orientation, pos)\<close>: the constructor called with the two positional fields
  only, the other three taking the defaults written in the dataclass.
\<close>

definition Guide2 :: "string \<Rightarrow> int \<Rightarrow> Guide" where
  "Guide2 ori p =
     \<lparr>orientation = ori, pos = p, color = (255, 140, 0, 255), thickness = 2,
      style_name = ''Solid''\<rparr>"

subsection \<open>OverlayCanvas\<close>

record OverlayCanvas =
  guides :: "Guide list"
  hover_idx :: "int option"
  positioning_idx :: "int option"
  interactive :: bool
  last_mouse_pos :: "(int \<times> int) option"

text \<open>The state after \<^verbatim>\<open>__init__\<close>; \<^verbatim>\<open>_last_mouse_pos\<close> is not yet an attribute.\<close>

definition init_canvas :: OverlayCanvas where
  "init_canvas =
     \<lparr>guides = [], hover_idx = None, positioning_idx = None, interactive = False,
      last_mouse_pos = None\<rparr>"

definition setInteractive :: "bool \<Rightarrow> OverlayCanvas \<Rightarrow> OverlayCanvas" where
  "setInteractive enabled c =
     (let c1 = c\<lparr>interactive := enabled\<rparr>
      in if \<not> enabled then c1\<lparr>positioning_idx := None, hover_idx := None\<rparr> else c1)"

definition addGuide :: "Guide \<Rightarrow> OverlayCanvas \<Rightarrow> OverlayCanvas" where
  "addGuide g c = c\<lparr>guides := guides c @ [g]\<rparr>"

definition removeGuideAt :: "int \<Rightarrow> OverlayCanvas \<Rightarrow> py_error + OverlayCanvas" where
  "removeGuideAt index c =
     (if 0 \<le> index \<and> index < int (length (guides c)) then
        (case py_del (guides c) index of
           Inl err \<Rightarrow> Inl err
         | Inr gs \<Rightarrow>
             let c1 = c\<lparr>guides := gs\<rparr>;
                 c2 = (case positioning_idx c1 of
                         None \<Rightarrow> c1
                       | Some p \<Rightarrow>
                           if p = index then c1\<lparr>positioning_idx := None\<rparr>
                           else if p > index then c1\<lparr>positioning_idx := Some (p - 1)\<rparr>
                           else c1);
                 c3 = (case hover_idx c2 of
                         None \<Rightarrow> c2
                       | Some q \<Rightarrow>
                           if q = index then c2\<lparr>hover_idx := None\<rparr>
                           else if q > index then c2\<lparr>hover_idx := Some (q - 1)\<rparr>
                           else c2)
             in Inr c3)
      else Inr c)"

definition clearGuides :: "OverlayCanvas \<Rightarrow> OverlayCanvas" where
  "clearGuides c =
     (if guides c \<noteq> [] then c\<lparr>guides := [], positioning_idx := None, hover_idx := None\<rparr>
      else c)"

definition setGuides :: "Guide list \<Rightarrow> OverlayCanvas \<Rightarrow> OverlayCanvas" where
  "setGuides gs c = c\<lparr>guides := gs, positioning_idx := None, hover_idx := None\<rparr>"

text \<open>
  The loop of \<^verbatim>\<open>_findGuideAt\<close>: \<open>i\<close> is the counter of \<^verbatim>\<open>enumerate\<close>, the list is what
  remains to be visited.
\<close>

fun findGuideAt_loop :: "int \<Rightarrow> int \<Rightarrow> int \<Rightarrow> int \<Rightarrow> Guide list \<Rightarrow> int option" where
  "findGuideAt_loop radius x y i [] = None"
| "findGuideAt_loop radius x y i (g # gs) =
     (if orientation g = ''v'' \<and> \<bar>x - pos g\<bar> \<le> radius then Some i
      else if orientation g = ''h'' \<and> \<bar>y - pos g\<bar> \<le> radius then Some i
      else findGuideAt_loop radius x y (i + 1) gs)"

definition findGuideAt :: "OverlayCanvas \<Rightarrow> int \<times> int \<Rightarrow> bool \<Rightarrow> int option" where
  "findGuideAt c p use_drag_radius =
     (let radius = (if use_drag_radius then GUIDE_DRAG_RADIUS else GUIDE_HIT_RADIUS)
      in findGuideAt_loop radius (fst p) (snd p) 0 (guides c))"

text \<open>
  What the handlers read of a \<^verbatim>\<open>QMouseEvent\<close>: the button, whether
  \<^verbatim>\<open>modifiers() & ShiftModifier\<close> is set, and the position.
\<close>

datatype MouseButton = LeftButton | RightButton | MiddleButton | OtherButton

record QMouseEvent =
  ev_button :: MouseButton
  ev_shift :: bool
  ev_x :: int
  ev_y :: int

definition mousePressEvent :: "QMouseEvent \<Rightarrow> OverlayCanvas \<Rightarrow> py_error + OverlayCanvas" where
  "mousePressEvent e c =
     (if \<not> interactive c then Inr c
      else
        let c1 = c\<lparr>last_mouse_pos := Some (ev_x e, ev_y e)\<rparr> in
        (case ev_button e of
           LeftButton \<Rightarrow>
             (let idx = findGuideAt c1 (ev_x e, ev_y e) True in
              if positioning_idx c1 = None \<and> idx \<noteq> None then
                Inr (c1\<lparr>positioning_idx := idx, hover_idx := idx\<rparr>)
              else if positioning_idx c1 \<noteq> None then
                Inr (c1\<lparr>positioning_idx := None, hover_idx := None\<rparr>)
              else Inr c1)
         | RightButton \<Rightarrow>
             (case findGuideAt c1 (ev_x e, ev_y e) True of
                None \<Rightarrow> Inr c1
              | Some idx \<Rightarrow>
                  removeGuideAt idx
                    (if positioning_idx c1 = Some idx then c1\<lparr>positioning_idx := None\<rparr>
                     else c1))
         | MiddleButton \<Rightarrow>
             (if ev_shift e then Inr (addGuide (Guide2 ''h'' (ev_y e)) c1)
              else Inr (addGuide (Guide2 ''v'' (ev_x e)) c1))
         | OtherButton \<Rightarrow> Inr c1))"

text \<open>
  \<open>w\<close> and \<open>h\<close> are what \<^verbatim>\<open>self.width()\<close> and \<^verbatim>\<open>self.height()\<close> return when the event
  is handled. The assignment to \<^verbatim>\<open>g.pos\<close> mutates the object stored in the list; every
  guide in the list is a distinct object (each is built by its own constructor call), so
  only that slot changes.
\<close>

definition mouseMoveEvent ::
  "int \<Rightarrow> int \<Rightarrow> QMouseEvent \<Rightarrow> OverlayCanvas \<Rightarrow> py_error + OverlayCanvas" where
  "mouseMoveEvent w h e c =
     (if \<not> interactive c then Inr c
      else
        let c1 = c\<lparr>last_mouse_pos := Some (ev_x e, ev_y e)\<rparr> in
        (case positioning_idx c1 of
           Some p \<Rightarrow>
             if p < int (length (guides c1)) then
               (case py_index (guides c1) p of
                  Inl err \<Rightarrow> Inl err
                | Inr j \<Rightarrow>
                    let g = guides c1 ! j;
                        g1 = (if orientation g = ''v''
                              then g\<lparr>pos := max 0 (min (w - 1) (ev_x e))\<rparr>
                              else g\<lparr>pos := max 0 (min (h - 1) (ev_y e))\<rparr>)
                    in Inr (c1\<lparr>guides := (guides c1)[j := g1]\<rparr>))
             else Inr (c1\<lparr>positioning_idx := None, hover_idx := None\<rparr>)
         | None \<Rightarrow>
             (let idx = findGuideAt c1 (ev_x e, ev_y e) False in
              if idx \<noteq> hover_idx c1 then Inr (c1\<lparr>hover_idx := idx\<rparr>) else Inr c1)))"

definition mouseReleaseEvent :: "QMouseEvent \<Rightarrow> OverlayCanvas \<Rightarrow> OverlayCanvas" where
  "mouseReleaseEvent e c = c"

definition leaveEvent :: "OverlayCanvas \<Rightarrow> OverlayCanvas" where
  "leaveEvent c =
     (if \<not> interactive c then c
      else if positioning_idx c = None \<and> hover_idx c \<noteq> None then c\<lparr>hover_idx := None\<rparr>
      else c)"

subsection \<open>Sequences of operations\<close>

text \<open>
  Everything that reaches the canvas while the program runs: the public methods called by
  the main window and the panel, and the pointer events delivered by the toolkit. A
  sequence stops at the first exception.
\<close>

datatype canvas_op =
    SetInteractive bool
  | AddGuide Guide
  | RemoveGuideAt int
  | ClearGuides
  | SetGuides "Guide list"
  | MousePress QMouseEvent
  | MouseMove int int QMouseEvent
  | MouseRelease QMouseEvent
  | Leave

fun apply_op :: "canvas_op \<Rightarrow> OverlayCanvas \<Rightarrow> py_error + OverlayCanvas" where
  "apply_op (SetInteractive b) c = Inr (setInteractive b c)"
| "apply_op (AddGuide g) c = Inr (addGuide g c)"
| "apply_op (RemoveGuideAt i) c = removeGuideAt i c"
| "apply_op ClearGuides c = Inr (clearGuides c)"
| "apply_op (SetGuides gs) c = Inr (setGuides gs c)"
| "apply_op (MousePress e) c = mousePressEvent e c"
| "apply_op (MouseMove w h e) c = mouseMoveEvent w h e c"
| "apply_op (MouseRelease e) c = Inr (mouseReleaseEvent e c)"
| "apply_op Leave c = Inr (leaveEvent c)"

fun run_ops :: "canvas_op list \<Rightarrow> OverlayCanvas \<Rightarrow> py_error + OverlayCanvas" where
  "run_ops [] c = Inr c"
| "run_ops (x # xs) c =
     (case apply_op x c of Inl err \<Rightarrow> Inl err | Inr c1 \<Rightarrow> run_ops xs c1)"

subsection \<open>The control panel's add request\<close>

text \<open>
  The values the panel holds for new guides: \<^verbatim>\<open>_current_color\<close>, the value of the
  thickness spin box and the text of the style combo box.
\<close>

record ControlPanel =
  current_color :: rgba
  thickness_spin :: int
  style_combo :: string

text \<open>
  \<^verbatim>\<open>ControlPanel._emit_add\<close>: \<open>global_pos\<close> is the cursor position and \<open>geo\<close> the origin
  of the primary screen's geometry. The guide it builds is the argument of the
  \<^verbatim>\<open>addGuideRequested\<close> signal, which is connected to \<^verbatim>\<open>OverlayCanvas.addGuide\<close>.
\<close>

definition emit_add :: "string \<Rightarrow> int \<times> int \<Rightarrow> int \<times> int \<Rightarrow> ControlPanel \<Rightarrow> Guide" where
  "emit_add ori global_pos geo panel =
     (let p = (if ori = ''v'' then fst global_pos - fst geo else snd global_pos - snd geo)
      in \<lparr>orientation = ori, pos = max 0 p, color = current_color panel,
          thickness = thickness_spin panel, style_name = style_combo panel\<rparr>)"

subsection \<open>Loading the persisted guides\<close>

text \<open>
  The values \<^verbatim>\<open>json.load\<close> produces, and the tuple of the dataclass default. A
  dictionary is the list of its items, so its keys are distinct. \<open>PFloat\<close> carries a
  finite float; the loader never looks inside one.
\<close>

datatype pyval =
    PNone
  | PBool bool
  | PInt int
  | PFloat rat
  | PStr string
  | PList "pyval list"
  | PTuple "pyval list"
  | PDict "(string \<times> pyval) list"










subsection \<open>Properties stated over the canvas\<close>

text \<open>An interaction index is absent or a position of the collection.\<close>

definition idx_in_range :: "OverlayCanvas \<Rightarrow> int option \<Rightarrow> bool" where
  "idx_in_range c idx =
     (case idx of None \<Rightarrow> True | Some i \<Rightarrow> 0 \<le> i \<and> i < int (length (guides c)))"

definition no_dangling :: "OverlayCanvas \<Rightarrow> bool" where
  "no_dangling c = (idx_in_range c (hover_idx c) \<and> idx_in_range c (positioning_idx c))"

text \<open>A canvas that is not interactive has neither index set.\<close>

definition passive_clear :: "OverlayCanvas \<Rightarrow> bool" where
  "passive_clear c =
     (if interactive c then True else hover_idx c = None \<and> positioning_idx c = None)"

text \<open>While a guide is being positioned, the hover index is the positioning index.\<close>

definition hover_follows_drag :: "OverlayCanvas \<Rightarrow> bool" where
  "hover_follows_drag c =
     (case positioning_idx c of None \<Rightarrow> True | Some i \<Rightarrow> hover_idx c = Some i)"

text \<open>
  The hit test of the specification: the distance of the pointer from the guide, on
  the guide's perpendicular axis, is at most the radius.
\<close>

definition is_hit :: "int \<Rightarrow> int \<Rightarrow> int \<Rightarrow> Guide \<Rightarrow> bool" where
  "is_hit radius x y g =
     ((orientation g = ''v'' \<and> \<bar>x - pos g\<bar> \<le> radius) \<or>
      (orientation g = ''h'' \<and> \<bar>y - pos g\<bar> \<le> radius))"

subsection \<open>States and events used as examples\<close>

text \<open>An interactive canvas holding one vertical guide at \<open>x = 100\<close>, idle.\<close>

definition one_guide_canvas :: OverlayCanvas where
  "one_guide_canvas =
     \<lparr>guides = [Guide2 ''v'' 100], hover_idx = None, positioning_idx = None,
      interactive = True, last_mouse_pos = None\<rparr>"

text \<open>
  An interactive canvas holding three guides, the second hovered and the third being
  positioned.
\<close>

definition three_guide_canvas :: OverlayCanvas where
  "three_guide_canvas =
     \<lparr>guides = [Guide2 ''v'' 100, Guide2 ''h'' 200, Guide2 ''v'' 300], hover_idx = Some 1,
      positioning_idx = Some 2, interactive = True, last_mouse_pos = None\<rparr>"

text \<open>A pointer event with button \<open>b\<close> at \<open>(x, y)\<close>, no modifier held.\<close>

definition button_at :: "MouseButton \<Rightarrow> int \<Rightarrow> int \<Rightarrow> QMouseEvent" where
  "button_at b x y = \<lparr>ev_button = b, ev_shift = False, ev_x = x, ev_y = y\<rparr>"





text \<open>A control panel set to blue, thickness 5, dashed.\<close>

definition blue_panel :: ControlPanel where
  "blue_panel = \<lparr>current_color = (0, 0, 255, 255), thickness_spin = 5, style_combo = ''Dashed''\<rparr>"

section \<open>Removal\<close>

lemma py_del_in_range:
  "0 \<le> i \<Longrightarrow> i < int (length xs) \<Longrightarrow>
   py_del xs i = Inr (take (nat i) xs @ drop (Suc (nat i)) xs)"
  by (simp add: py_del_def py_index_def Let_def)

text \<open>
  C2 (as the code has it). \<^verbatim>\<open>removeGuideAt\<close> guards the deletion with
  \<^verbatim>\<open>0 <= index < len(self._guides)\<close>: for a negative index, or one at or beyond the
  length of the collection, it returns normally and leaves the canvas exactly as it was.
  No exception is raised.
\<close>

theorem removeGuideAt_invalid_noop:
  assumes "index < 0 \<or> int (length (guides c)) \<le> index"
  shows "removeGuideAt index c = Inr c"
  using assms by (auto simp: removeGuideAt_def)

theorem removeGuideAt_invalid_noop_witness:
  "((7::int) < 0 \<or> int (length (guides (addGuide (Guide2 ''v'' 100) init_canvas))) \<le> 7) \<and>
   removeGuideAt 7 (addGuide (Guide2 ''v'' 100) init_canvas) =
     Inr (addGuide (Guide2 ''v'' 100) init_canvas)"
  using removeGuideAt_invalid_noop [of 7 "addGuide (Guide2 ''v'' 100) init_canvas"]
  by (simp add: addGuide_def init_canvas_def)

text \<open>
  C2 (as the specification states it) fails: removing at index \<open>-1\<close> or at index \<open>1\<close>
  from a one-guide canvas is not an error; the call returns the unchanged canvas.
\<close>

theorem removeGuideAt_invalid_counterexample:
  "\<not> isl (removeGuideAt (-1) (addGuide (Guide2 ''v'' 100) init_canvas)) \<and>
   removeGuideAt (-1) (addGuide (Guide2 ''v'' 100) init_canvas) \<noteq> Inl IndexError \<and>
   removeGuideAt 1 (addGuide (Guide2 ''v'' 100) init_canvas) =
     Inr (addGuide (Guide2 ''v'' 100) init_canvas)"
  by (simp add: removeGuideAt_def addGuide_def init_canvas_def)

text \<open>
  C3. For a valid index, \<^verbatim>\<open>removeGuideAt\<close> deletes that guide and re-derives both
  interaction indices by the same rule, each on its own: an index equal to the removed
  one becomes \<open>None\<close>, a greater one is decremented, a smaller one (or \<open>None\<close>) is kept.
\<close>

theorem removeGuideAt_valid_reindex:
  assumes "0 \<le> index" and "index < int (length (guides c))"
  shows "\<exists>c'. removeGuideAt index c = Inr c' \<and>
           guides c' = take (nat index) (guides c) @ drop (Suc (nat index)) (guides c) \<and>
           positioning_idx c' =
             (case positioning_idx c of
                None \<Rightarrow> None
              | Some p \<Rightarrow> if p = index then None
                          else if p > index then Some (p - 1) else Some p) \<and>
           hover_idx c' =
             (case hover_idx c of
                None \<Rightarrow> None
              | Some q \<Rightarrow> if q = index then None
                          else if q > index then Some (q - 1) else Some q) \<and>
           interactive c' = interactive c \<and> last_mouse_pos c' = last_mouse_pos c"
  using assms
  by (simp add: removeGuideAt_def py_del_in_range Let_def split: option.splits)

theorem removeGuideAt_valid_reindex_witness:
  "(0::int) \<le> 1 \<and> 1 < int (length (guides three_guide_canvas)) \<and>
   removeGuideAt 1 three_guide_canvas =
     Inr \<lparr>guides = [Guide2 ''v'' 100, Guide2 ''v'' 300], hover_idx = None,
          positioning_idx = Some 1, interactive = True, last_mouse_pos = None\<rparr>"
  using removeGuideAt_valid_reindex [of 1 three_guide_canvas]
  by (auto simp: three_guide_canvas_def)

section \<open>Hit testing\<close>

lemma findGuideAt_loop_None:
  "findGuideAt_loop r x y i gs = None \<longleftrightarrow> (\<forall>j<length gs. \<not> is_hit r x y (gs ! j))"
  by (induction gs arbitrary: i) (auto simp: is_hit_def less_Suc_eq_0_disj)

lemma findGuideAt_loop_Some:
  "findGuideAt_loop r x y i gs = Some k \<longleftrightarrow>
     (i \<le> k \<and> nat (k - i) < length gs \<and> is_hit r x y (gs ! nat (k - i)) \<and>
      (\<forall>j<nat (k - i). \<not> is_hit r x y (gs ! j)))"
proof (induction gs arbitrary: i)
  case Nil
  then show ?case by simp
next
  case (Cons g gs)
  show ?case
  proof (cases "is_hit r x y g")
    case True
    then have "findGuideAt_loop r x y i (g # gs) = Some i"
      by (auto simp: is_hit_def)
    moreover have "(i \<le> k \<and> nat (k - i) < length (g # gs) \<and>
        is_hit r x y ((g # gs) ! nat (k - i)) \<and>
        (\<forall>j<nat (k - i). \<not> is_hit r x y ((g # gs) ! j))) \<longleftrightarrow> k = i"
      using True by (cases "nat (k - i)") auto
    ultimately show ?thesis by auto
  next
    case False
    then have eq: "findGuideAt_loop r x y i (g # gs) = findGuideAt_loop r x y (i + 1) gs"
      by (auto simp: is_hit_def)
    show ?thesis
    proof (cases "i < k")
      case True
      then have n: "nat (k - i) = Suc (nat (k - (i + 1)))" by simp
      show ?thesis
        unfolding eq Cons.IH n using True False
        by (auto simp: All_less_Suc2)
    next
      case lt: False
      then show ?thesis
        unfolding eq Cons.IH using False
        by (cases "k = i") auto
    qed
  qed
qed

lemma findGuideAt_loop_bounds:
  "findGuideAt_loop r x y i gs = Some k \<Longrightarrow> i \<le> k \<and> k < i + int (length gs)"
  by (induction gs arbitrary: i) (fastforce split: if_splits)+

lemma findGuideAt_in_range:
  "findGuideAt c p b = Some k \<Longrightarrow> 0 \<le> k \<and> k < int (length (guides c))"
  using findGuideAt_loop_bounds [of _ "fst p" "snd p" 0 "guides c" k]
  by (simp add: findGuideAt_def Let_def)

lemma findGuideAt_last_mouse_pos:
  "findGuideAt (c\<lparr>last_mouse_pos := v\<rparr>) p b = findGuideAt c p b"
  by (simp add: findGuideAt_def)

text \<open>
  C7. \<^verbatim>\<open>_findGuideAt\<close> returns the lowest index whose guide is hit, and \<open>None\<close> exactly
  when no guide is hit, for every pointer position, guide list and radius; the method
  itself runs the loop with radius 20 (drag) or 15 (hover). The test is inclusive: a
  pointer exactly \<open>radius\<close> away from a guide hits it, one at \<open>radius + 1\<close> does not.
\<close>

theorem findGuideAt_lowest_hit:
  "(findGuideAt_loop radius x y 0 gs = Some k \<longleftrightarrow>
      0 \<le> k \<and> nat k < length gs \<and> is_hit radius x y (gs ! nat k) \<and>
      (\<forall>j<nat k. \<not> is_hit radius x y (gs ! j))) \<and>
   (findGuideAt_loop radius x y 0 gs = None \<longleftrightarrow>
      (\<forall>j<length gs. \<not> is_hit radius x y (gs ! j))) \<and>
   findGuideAt c (x, y) use_drag_radius =
     findGuideAt_loop (if use_drag_radius then 20 else 15) x y 0 (guides c) \<and>
   (0 \<le> radius \<longrightarrow>
      findGuideAt_loop radius (p + radius) y 0 [Guide2 ''v'' p] = Some 0 \<and>
      findGuideAt_loop radius (p - radius) y 0 [Guide2 ''v'' p] = Some 0 \<and>
      findGuideAt_loop radius (p + radius + 1) y 0 [Guide2 ''v'' p] = None \<and>
      findGuideAt_loop radius (p - radius - 1) y 0 [Guide2 ''v'' p] = None \<and>
      findGuideAt_loop radius x (p + radius) 0 [Guide2 ''h'' p] = Some 0 \<and>
      findGuideAt_loop radius x (p - radius) 0 [Guide2 ''h'' p] = Some 0 \<and>
      findGuideAt_loop radius x (p + radius + 1) 0 [Guide2 ''h'' p] = None \<and>
      findGuideAt_loop radius x (p - radius - 1) 0 [Guide2 ''h'' p] = None)"
proof -
  have "findGuideAt_loop radius x y 0 gs = Some k \<longleftrightarrow>
      0 \<le> k \<and> nat k < length gs \<and> is_hit radius x y (gs ! nat k) \<and>
      (\<forall>j<nat k. \<not> is_hit radius x y (gs ! j))"
    using findGuideAt_loop_Some [of radius x y 0 gs k] by simp
  moreover have "findGuideAt c (x, y) use_drag_radius =
     findGuideAt_loop (if use_drag_radius then 20 else 15) x y 0 (guides c)"
    by (simp add: findGuideAt_def GUIDE_DRAG_RADIUS_def GUIDE_HIT_RADIUS_def)
  moreover have "0 \<le> radius \<longrightarrow>
      findGuideAt_loop radius (p + radius) y 0 [Guide2 ''v'' p] = Some 0 \<and>
      findGuideAt_loop radius (p - radius) y 0 [Guide2 ''v'' p] = Some 0 \<and>
      findGuideAt_loop radius (p + radius + 1) y 0 [Guide2 ''v'' p] = None \<and>
      findGuideAt_loop radius (p - radius - 1) y 0 [Guide2 ''v'' p] = None \<and>
      findGuideAt_loop radius x (p + radius) 0 [Guide2 ''h'' p] = Some 0 \<and>
      findGuideAt_loop radius x (p - radius) 0 [Guide2 ''h'' p] = Some 0 \<and>
      findGuideAt_loop radius x (p + radius + 1) 0 [Guide2 ''h'' p] = None \<and>
      findGuideAt_loop radius x (p - radius - 1) 0 [Guide2 ''h'' p] = None"
    by (simp add: Guide2_def)
  ultimately show ?thesis
    using findGuideAt_loop_None [of radius x y 0 gs] by blast
qed

text \<open>
  Two vertical guides at 100 and 110 and a pointer at \<open>x = 105\<close>: both are within the
  drag radius and the first one wins. With the first guide moved away to 500 the second
  is found, at index 1; with only the far guide nothing is found. At distance 20 from a
  single guide the drag radius hits and the hover radius misses, at distance 21 the drag
  radius misses.
\<close>

theorem findGuideAt_lowest_hit_witness:
  "findGuideAt_loop 20 105 0 0 [Guide2 ''v'' 100, Guide2 ''v'' 110] = Some 0 \<and>
   is_hit 20 105 0 ([Guide2 ''v'' 100, Guide2 ''v'' 110] ! 1) \<and>
   findGuideAt_loop 20 105 0 0 [Guide2 ''v'' 500, Guide2 ''v'' 110] = Some 1 \<and>
   \<not> is_hit 20 105 0 ([Guide2 ''v'' 500, Guide2 ''v'' 110] ! 0) \<and>
   findGuideAt_loop 20 105 0 0 [Guide2 ''v'' 500] = None \<and>
   (0::int) \<le> 20 \<and>
   findGuideAt_loop 20 (100 + 20) 0 0 [Guide2 ''v'' 100] = Some 0 \<and>
   findGuideAt_loop 20 (100 + 20 + 1) 0 0 [Guide2 ''v'' 100] = None \<and>
   findGuideAt one_guide_canvas (120, 0) True = Some 0 \<and>
   findGuideAt one_guide_canvas (120, 0) False = None"
proof -
  have first: "is_hit 20 105 0 (Guide2 ''v'' 100)" and second: "is_hit 20 105 0 (Guide2 ''v'' 110)"
    and far: "\<not> is_hit 20 105 0 (Guide2 ''v'' 500)"
    by (simp_all add: is_hit_def Guide2_def)
  have "findGuideAt_loop 20 105 0 0 [Guide2 ''v'' 100, Guide2 ''v'' 110] = Some 0"
    using findGuideAt_lowest_hit [of 20 105 0 "[Guide2 ''v'' 100, Guide2 ''v'' 110]" 0
        one_guide_canvas True 100] first
    by simp
  moreover have "findGuideAt_loop 20 105 0 0 [Guide2 ''v'' 500, Guide2 ''v'' 110] = Some 1"
    using findGuideAt_lowest_hit [of 20 105 0 "[Guide2 ''v'' 500, Guide2 ''v'' 110]" 1
        one_guide_canvas True 100] second far
    by simp
  moreover have "findGuideAt_loop 20 105 0 0 [Guide2 ''v'' 500] = None"
    using findGuideAt_lowest_hit [of 20 105 0 "[Guide2 ''v'' 500]" 0
        one_guide_canvas True 100] far
    by simp
  moreover have "findGuideAt_loop 20 (100 + 20) 0 0 [Guide2 ''v'' 100] = Some 0 \<and>
      findGuideAt_loop 20 (100 + 20 + 1) 0 0 [Guide2 ''v'' 100] = None"
    using findGuideAt_lowest_hit [of 20 0 0 "[]" 0 one_guide_canvas True 100]
    by simp
  moreover have "findGuideAt one_guide_canvas (120, 0) True = Some 0 \<and>
      findGuideAt one_guide_canvas (120, 0) False = None"
    using findGuideAt_lowest_hit [of 20 120 0 "[]" 0 one_guide_canvas True 100]
      findGuideAt_lowest_hit [of 20 120 0 "[]" 0 one_guide_canvas False 100]
    by (simp add: one_guide_canvas_def Guide2_def)
  ultimately show ?thesis
    using second far by simp
qed

section \<open>The click-to-toggle drag protocol\<close>

text \<open>
  C1. On an interactive canvas a press of the primary button starts a drag when no
  guide is being positioned and the drag-radius hit test finds a guide (both indices
  become the hit index), ends the drag when a guide is being positioned (both indices
  become \<open>None\<close>, whatever the hit test says), and changes neither the guides nor the
  indices when idle with no hit. Apart from the indices only the remembered pointer
  position is written. A button release changes nothing.
\<close>

theorem click_to_toggle:
  "(interactive c \<and> positioning_idx c = None \<and> ev_button e = LeftButton \<and>
    findGuideAt c (ev_x e, ev_y e) True = Some i \<longrightarrow>
      mousePressEvent e c =
        Inr (c\<lparr>last_mouse_pos := Some (ev_x e, ev_y e), positioning_idx := Some i,
               hover_idx := Some i\<rparr>)) \<and>
   (interactive c \<and> positioning_idx c = Some p \<and> ev_button e = LeftButton \<longrightarrow>
      mousePressEvent e c =
        Inr (c\<lparr>last_mouse_pos := Some (ev_x e, ev_y e), positioning_idx := None,
               hover_idx := None\<rparr>)) \<and>
   (interactive c \<and> positioning_idx c = None \<and> ev_button e = LeftButton \<and>
    findGuideAt c (ev_x e, ev_y e) True = None \<longrightarrow>
      mousePressEvent e c = Inr (c\<lparr>last_mouse_pos := Some (ev_x e, ev_y e)\<rparr>)) \<and>
   mouseReleaseEvent e c = c"
proof -
  have press: "mousePressEvent e c =
      (let c1 = c\<lparr>last_mouse_pos := Some (ev_x e, ev_y e)\<rparr>;
           idx = findGuideAt c (ev_x e, ev_y e) True
       in if positioning_idx c = None \<and> idx \<noteq> None then
            Inr (c1\<lparr>positioning_idx := idx, hover_idx := idx\<rparr>)
          else if positioning_idx c \<noteq> None then
            Inr (c1\<lparr>positioning_idx := None, hover_idx := None\<rparr>)
          else Inr c1)"
    if "interactive c" and "ev_button e = LeftButton"
    using that by (simp add: mousePressEvent_def findGuideAt_last_mouse_pos Let_def)
  have release: "mouseReleaseEvent e c = c"
    by (simp add: mouseReleaseEvent_def)
  show ?thesis
    using press release by (auto simp: Let_def)
qed

text \<open>
  One vertical guide at \<open>x = 100\<close>: a primary click at \<open>x = 105\<close> starts dragging guide 0,
  the next primary click, far from the guide, ends the drag; a primary click at
  \<open>x = 121\<close> on the idle canvas misses; a release during the drag leaves it running.
\<close>

theorem click_to_toggle_witness:
  "mousePressEvent (button_at LeftButton 105 40) one_guide_canvas =
     Inr (one_guide_canvas\<lparr>last_mouse_pos := Some (105, 40), positioning_idx := Some 0,
            hover_idx := Some 0\<rparr>) \<and>
   mousePressEvent (button_at LeftButton 900 7)
       (one_guide_canvas\<lparr>last_mouse_pos := Some (105, 40), positioning_idx := Some 0,
            hover_idx := Some 0\<rparr>) =
     Inr (one_guide_canvas\<lparr>last_mouse_pos := Some (900, 7), positioning_idx := None,
            hover_idx := None\<rparr>) \<and>
   mousePressEvent (button_at LeftButton 121 40) one_guide_canvas =
     Inr (one_guide_canvas\<lparr>last_mouse_pos := Some (121, 40)\<rparr>) \<and>
   mouseReleaseEvent (button_at LeftButton 105 40)
       (one_guide_canvas\<lparr>positioning_idx := Some 0, hover_idx := Some 0\<rparr>) =
     one_guide_canvas\<lparr>positioning_idx := Some 0, hover_idx := Some 0\<rparr>"
proof -
  have hit: "findGuideAt one_guide_canvas (105, 40) True = Some 0"
    by (simp add: findGuideAt_def one_guide_canvas_def Guide2_def GUIDE_DRAG_RADIUS_def)
  have miss: "findGuideAt one_guide_canvas (121, 40) True = None"
    by (simp add: findGuideAt_def one_guide_canvas_def Guide2_def GUIDE_DRAG_RADIUS_def)
  have idle: "interactive one_guide_canvas \<and> positioning_idx one_guide_canvas = None"
    by (simp add: one_guide_canvas_def)
  show ?thesis
    using click_to_toggle [of one_guide_canvas "button_at LeftButton 105 40" 0 0]
      click_to_toggle [of "one_guide_canvas\<lparr>last_mouse_pos := Some (105, 40),
          positioning_idx := Some 0, hover_idx := Some 0\<rparr>" "button_at LeftButton 900 7" 0 0]
      click_to_toggle [of one_guide_canvas "button_at LeftButton 121 40" 0 0]
      click_to_toggle [of "one_guide_canvas\<lparr>positioning_idx := Some 0, hover_idx := Some 0\<rparr>"
          "button_at LeftButton 105 40" 0 0]
      hit miss idle
    by (simp add: button_at_def)
qed

section \<open>Dragging\<close>

text \<open>
  C6. On an interactive canvas with a guide being positioned at a valid index, a
  pointer move stores in that guide, and in no other, the pointer coordinate clamped by
  \<open>max 0 (min (extent - 1) coordinate)\<close>: \<open>x\<close> against the width for a guide whose
  orientation is \<^verbatim>\<open>'v'\<close>, \<open>y\<close> against the height otherwise. On a surface of extent at
  least 1 the new position lies in \<open>0 .. extent - 1\<close>, and a vertical guide dragged to
  \<open>x = width + 50\<close> ends at \<open>width - 1\<close>. Both indices are kept.
\<close>

theorem drag_move_clamps:
  assumes "interactive c" and "positioning_idx c = Some i"
    and "0 \<le> i" and "i < int (length (guides c))"
  shows "\<exists>c'. mouseMoveEvent w h e c = Inr c' \<and>
           guides c' =
             (guides c)[nat i := (guides c ! nat i)\<lparr>pos :=
                (if orientation (guides c ! nat i) = ''v''
                 then max 0 (min (w - 1) (ev_x e))
                 else max 0 (min (h - 1) (ev_y e)))\<rparr>] \<and>
           positioning_idx c' = Some i \<and> hover_idx c' = hover_idx c \<and>
           interactive c' \<and>
           (orientation (guides c ! nat i) = ''v'' \<and> 1 \<le> w \<longrightarrow>
              0 \<le> pos (guides c' ! nat i) \<and> pos (guides c' ! nat i) \<le> w - 1) \<and>
           (orientation (guides c ! nat i) = ''h'' \<and> 1 \<le> h \<longrightarrow>
              0 \<le> pos (guides c' ! nat i) \<and> pos (guides c' ! nat i) \<le> h - 1) \<and>
           (orientation (guides c ! nat i) = ''v'' \<and> 1 \<le> w \<and> ev_x e = w + 50 \<longrightarrow>
              pos (guides c' ! nat i) = w - 1)"
  using assms
  by (auto simp: mouseMoveEvent_def py_index_def Let_def)

text \<open>
  The third guide of the example canvas, vertical and being positioned, on a surface of
  1920 by 1080 with the pointer moved to \<open>x = 1920 + 50\<close>: it ends at 1919.
\<close>

theorem drag_move_clamps_witness:
  "interactive three_guide_canvas \<and> positioning_idx three_guide_canvas = Some 2 \<and>
   (0::int) \<le> 2 \<and> 2 < int (length (guides three_guide_canvas)) \<and>
   orientation (guides three_guide_canvas ! nat 2) = ''v'' \<and> (1::int) \<le> 1920 \<and>
   ev_x (button_at OtherButton (1920 + 50) 500) = 1920 + 50 \<and>
   mouseMoveEvent 1920 1080 (button_at OtherButton (1920 + 50) 500) three_guide_canvas =
     Inr (three_guide_canvas
           \<lparr>guides := [Guide2 ''v'' 100, Guide2 ''h'' 200, Guide2 ''v'' 1919],
            last_mouse_pos := Some (1970, 500)\<rparr>)"
  using drag_move_clamps [of three_guide_canvas 2 1920 1080 "button_at OtherButton (1920 + 50) 500"]
  by (simp add: three_guide_canvas_def button_at_def Guide2_def mouseMoveEvent_def
      py_index_def)

section \<open>Invariants of the interaction indices\<close>

text \<open>
  Three properties of the canvas, each kept by every operation: no index dangles, a
  canvas that is not interactive has no index set, and the hover index follows the
  positioning index. No operation raises on a canvas whose indices do not dangle.
\<close>

lemma removeGuideAt_total: "\<exists>c'. removeGuideAt i c = Inr c'"
  by (simp add: removeGuideAt_def py_del_in_range Let_def)

lemma removeGuideAt_no_dangling:
  assumes "no_dangling c" and "removeGuideAt i c = Inr c'"
  shows "no_dangling c'"
proof (cases "0 \<le> i \<and> i < int (length (guides c))")
  case True
  then have len: "int (length (take (nat i) (guides c) @ drop (Suc (nat i)) (guides c))) =
      int (length (guides c)) - 1"
    by auto
  from True assms(2) have c': "c' =
      (let c1 = c\<lparr>guides := take (nat i) (guides c) @ drop (Suc (nat i)) (guides c)\<rparr>;
           c2 = (case positioning_idx c1 of None \<Rightarrow> c1
                 | Some p \<Rightarrow> if p = i then c1\<lparr>positioning_idx := None\<rparr>
                     else if p > i then c1\<lparr>positioning_idx := Some (p - 1)\<rparr> else c1);
           c3 = (case hover_idx c2 of None \<Rightarrow> c2
                 | Some q \<Rightarrow> if q = i then c2\<lparr>hover_idx := None\<rparr>
                     else if q > i then c2\<lparr>hover_idx := Some (q - 1)\<rparr> else c2)
       in c3)"
    by (simp add: removeGuideAt_def py_del_in_range Let_def)
  show ?thesis
    using assms(1) True len unfolding c'
    by (auto simp: no_dangling_def idx_in_range_def Let_def split: option.splits)
next
  case False
  with assms show ?thesis by (auto simp: removeGuideAt_def)
qed

lemma removeGuideAt_passive_clear:
  "passive_clear c \<Longrightarrow> removeGuideAt i c = Inr c' \<Longrightarrow> passive_clear c'"
  by (auto simp: removeGuideAt_def py_del_def py_index_def passive_clear_def Let_def
      split: if_splits option.splits)

lemma removeGuideAt_hover_follows_drag:
  "hover_follows_drag c \<Longrightarrow> removeGuideAt i c = Inr c' \<Longrightarrow> hover_follows_drag c'"
  by (auto simp: removeGuideAt_def py_del_def py_index_def hover_follows_drag_def Let_def
      split: if_splits option.splits)

lemma mousePressEvent_total: "\<exists>c'. mousePressEvent e c = Inr c'"
  using removeGuideAt_total
  by (cases "ev_button e") (auto simp: mousePressEvent_def Let_def split: option.splits)

lemma mousePressEvent_no_dangling:
  assumes "no_dangling c" and "mousePressEvent e c = Inr c'"
  shows "no_dangling c'"
proof (cases "interactive c")
  case False
  with assms show ?thesis by (simp add: mousePressEvent_def)
next
  case True
  let ?c1 = "c\<lparr>last_mouse_pos := Some (ev_x e, ev_y e)\<rparr>"
  have nd1: "no_dangling ?c1"
    using assms(1) by (simp add: no_dangling_def idx_in_range_def split: option.splits)
  show ?thesis
  proof (cases "ev_button e")
    case LeftButton
    with True assms(2) nd1 findGuideAt_in_range [of c "(ev_x e, ev_y e)" True]
    show ?thesis
      by (auto simp: mousePressEvent_def Let_def findGuideAt_last_mouse_pos
          no_dangling_def idx_in_range_def split: if_splits option.splits)
  next
    case RightButton
    show ?thesis
    proof (cases "findGuideAt c (ev_x e, ev_y e) True")
      case None
      with True RightButton assms(2) nd1 show ?thesis
        by (simp add: mousePressEvent_def findGuideAt_last_mouse_pos)
    next
      case (Some idx)
      let ?c2 = "if positioning_idx ?c1 = Some idx then ?c1\<lparr>positioning_idx := None\<rparr> else ?c1"
      have "no_dangling ?c2"
        using nd1 by (simp add: no_dangling_def idx_in_range_def split: option.splits)
      moreover have "removeGuideAt idx ?c2 = Inr c'"
        using True RightButton Some assms(2)
        by (simp add: mousePressEvent_def findGuideAt_last_mouse_pos Let_def)
      ultimately show ?thesis by (rule removeGuideAt_no_dangling)
    qed
  next
    case MiddleButton
    with True assms show ?thesis
      by (auto simp: mousePressEvent_def addGuide_def no_dangling_def idx_in_range_def
          Let_def split: if_splits option.splits)
  next
    case OtherButton
    with True assms(2) nd1 show ?thesis by (simp add: mousePressEvent_def)
  qed
qed

lemma mousePressEvent_passive_clear:
  assumes "passive_clear c" and "mousePressEvent e c = Inr c'"
  shows "passive_clear c'"
proof (cases "interactive c")
  case False
  with assms show ?thesis by (simp add: mousePressEvent_def)
next
  case True
  have "interactive c'"
    using True assms(2)
    by (cases "ev_button e")
      (auto simp: mousePressEvent_def removeGuideAt_def py_del_def py_index_def addGuide_def
        Let_def split: if_splits option.splits)
  then show ?thesis by (simp add: passive_clear_def)
qed

lemma mousePressEvent_hover_follows_drag:
  assumes "hover_follows_drag c" and "mousePressEvent e c = Inr c'"
  shows "hover_follows_drag c'"
proof (cases "interactive c")
  case False
  with assms show ?thesis by (simp add: mousePressEvent_def)
next
  case True
  let ?c1 = "c\<lparr>last_mouse_pos := Some (ev_x e, ev_y e)\<rparr>"
  have h1: "hover_follows_drag ?c1"
    using assms(1) by (simp add: hover_follows_drag_def split: option.splits)
  show ?thesis
  proof (cases "ev_button e")
    case LeftButton
    with True assms(2) h1 show ?thesis
      by (auto simp: mousePressEvent_def Let_def hover_follows_drag_def
          split: if_splits option.splits)
  next
    case RightButton
    show ?thesis
    proof (cases "findGuideAt c (ev_x e, ev_y e) True")
      case None
      with True RightButton assms(2) h1 show ?thesis
        by (simp add: mousePressEvent_def findGuideAt_last_mouse_pos)
    next
      case (Some idx)
      let ?c2 = "if positioning_idx ?c1 = Some idx then ?c1\<lparr>positioning_idx := None\<rparr> else ?c1"
      have "hover_follows_drag ?c2"
        using h1 by (simp add: hover_follows_drag_def split: option.splits)
      moreover have "removeGuideAt idx ?c2 = Inr c'"
        using True RightButton Some assms(2)
        by (simp add: mousePressEvent_def findGuideAt_last_mouse_pos Let_def)
      ultimately show ?thesis by (rule removeGuideAt_hover_follows_drag)
    qed
  next
    case MiddleButton
    with True assms show ?thesis
      by (auto simp: mousePressEvent_def addGuide_def hover_follows_drag_def
          Let_def split: if_splits option.splits)
  next
    case OtherButton
    with True assms(2) h1 show ?thesis by (simp add: mousePressEvent_def)
  qed
qed

lemma mouseMoveEvent_no_dangling:
  assumes "no_dangling c"
  shows "\<exists>c'. mouseMoveEvent w h e c = Inr c' \<and> no_dangling c'"
  using assms findGuideAt_in_range [of c "(ev_x e, ev_y e)" False]
  by (auto simp: mouseMoveEvent_def py_index_def Let_def findGuideAt_last_mouse_pos
      no_dangling_def idx_in_range_def split: option.splits)

lemma mouseMoveEvent_passive_clear:
  "passive_clear c \<Longrightarrow> mouseMoveEvent w h e c = Inr c' \<Longrightarrow> passive_clear c'"
  by (auto simp: mouseMoveEvent_def py_index_def Let_def passive_clear_def
      split: if_splits option.splits)

lemma mouseMoveEvent_hover_follows_drag:
  "hover_follows_drag c \<Longrightarrow> mouseMoveEvent w h e c = Inr c' \<Longrightarrow> hover_follows_drag c'"
  by (auto simp: mouseMoveEvent_def py_index_def Let_def hover_follows_drag_def
      split: if_splits option.splits)

lemma apply_op_no_dangling:
  assumes "no_dangling c"
  shows "\<exists>c'. apply_op x c = Inr c' \<and> no_dangling c'"
proof (cases x)
  case (RemoveGuideAt i)
  with assms removeGuideAt_total [of i c] removeGuideAt_no_dangling [of c i] show ?thesis
    by auto
next
  case (MousePress e)
  with assms mousePressEvent_total [of e c] mousePressEvent_no_dangling [of c e] show ?thesis
    by auto
next
  case (MouseMove w h e)
  with assms mouseMoveEvent_no_dangling [of c w h e] show ?thesis by simp
qed (use assms in \<open>auto simp: no_dangling_def idx_in_range_def setInteractive_def addGuide_def
      clearGuides_def setGuides_def mouseReleaseEvent_def leaveEvent_def Let_def
      split: option.splits if_splits\<close>)

lemma apply_op_passive_clear:
  assumes "passive_clear c" and "apply_op x c = Inr c'"
  shows "passive_clear c'"
proof (cases x)
  case (RemoveGuideAt i)
  with assms removeGuideAt_passive_clear show ?thesis by auto
next
  case (MousePress e)
  with assms mousePressEvent_passive_clear show ?thesis by auto
next
  case (MouseMove w h e)
  with assms mouseMoveEvent_passive_clear show ?thesis by auto
qed (use assms in \<open>auto simp: passive_clear_def setInteractive_def addGuide_def
      clearGuides_def setGuides_def mouseReleaseEvent_def leaveEvent_def Let_def
      split: if_splits\<close>)

lemma apply_op_hover_follows_drag:
  assumes "hover_follows_drag c" and "apply_op x c = Inr c'"
  shows "hover_follows_drag c'"
proof (cases x)
  case (RemoveGuideAt i)
  with assms removeGuideAt_hover_follows_drag show ?thesis by auto
next
  case (MousePress e)
  with assms mousePressEvent_hover_follows_drag show ?thesis by auto
next
  case (MouseMove w h e)
  with assms mouseMoveEvent_hover_follows_drag show ?thesis by auto
qed (use assms in \<open>auto simp: hover_follows_drag_def setInteractive_def addGuide_def
      clearGuides_def setGuides_def mouseReleaseEvent_def leaveEvent_def Let_def
      split: if_splits option.splits\<close>)

lemma run_ops_invariants:
  assumes "no_dangling c" and "passive_clear c" and "hover_follows_drag c"
  shows "\<exists>c'. run_ops xs c = Inr c' \<and> no_dangling c' \<and> passive_clear c' \<and>
           hover_follows_drag c'"
  using assms
proof (induction xs arbitrary: c)
  case Nil
  then show ?case by simp
next
  case (Cons x xs)
  from apply_op_no_dangling [OF Cons.prems(1), of x]
  obtain c1 where c1: "apply_op x c = Inr c1" "no_dangling c1" by blast
  have "passive_clear c1" "hover_follows_drag c1"
    using Cons.prems c1(1) apply_op_passive_clear apply_op_hover_follows_drag by blast+
  with c1 Cons.IH [of c1] show ?case by simp
qed

lemma init_canvas_invariants:
  "no_dangling init_canvas" "passive_clear init_canvas" "hover_follows_drag init_canvas"
  by (simp_all add: init_canvas_def no_dangling_def idx_in_range_def passive_clear_def
      hover_follows_drag_def)

text \<open>
  C4. Both indices are absent or positions of the collection in the initial canvas;
  every operation (add, remove, clear, replace all, mode switch, press, move, release,
  leave) applied to a canvas with that property returns normally and keeps it; so after
  every sequence of operations from the initial canvas neither index dangles.
\<close>

theorem no_dangling_index:
  "no_dangling init_canvas \<and>
   (no_dangling c \<longrightarrow> (\<exists>c'. apply_op x c = Inr c' \<and> no_dangling c')) \<and>
   (\<exists>c'. run_ops xs init_canvas = Inr c' \<and> no_dangling c')"
  using init_canvas_invariants apply_op_no_dangling [of c x]
    run_ops_invariants [of init_canvas xs]
  by blast

text \<open>
  Removing the first of three guides while the second is hovered and the third is being
  positioned; and a run that adds two guides, starts dragging the second and removes
  the first.
\<close>

theorem no_dangling_index_witness:
  "no_dangling three_guide_canvas \<and>
   apply_op (RemoveGuideAt 0) three_guide_canvas =
     Inr (three_guide_canvas\<lparr>guides := [Guide2 ''h'' 200, Guide2 ''v'' 300],
            hover_idx := Some 0, positioning_idx := Some 1\<rparr>) \<and>
   no_dangling (three_guide_canvas\<lparr>guides := [Guide2 ''h'' 200, Guide2 ''v'' 300],
            hover_idx := Some 0, positioning_idx := Some 1\<rparr>) \<and>
   run_ops [SetInteractive True, AddGuide (Guide2 ''v'' 100), AddGuide (Guide2 ''h'' 200),
            MousePress (button_at LeftButton 10 205), RemoveGuideAt 0] init_canvas =
     Inr \<lparr>guides = [Guide2 ''h'' 200], hover_idx = Some 0, positioning_idx = Some 0,
          interactive = True, last_mouse_pos = Some (10, 205)\<rparr> \<and>
   no_dangling \<lparr>guides = [Guide2 ''h'' 200], hover_idx = Some 0, positioning_idx = Some 0,
          interactive = True, last_mouse_pos = Some (10, 205)\<rparr>"
proof -
  have pre: "no_dangling three_guide_canvas"
    by (simp add: no_dangling_def idx_in_range_def three_guide_canvas_def)
  have step: "apply_op (RemoveGuideAt 0) three_guide_canvas =
     Inr (three_guide_canvas\<lparr>guides := [Guide2 ''h'' 200, Guide2 ''v'' 300],
            hover_idx := Some 0, positioning_idx := Some 1\<rparr>)"
    by (simp add: removeGuideAt_def py_del_def py_index_def three_guide_canvas_def)
  have run: "run_ops [SetInteractive True, AddGuide (Guide2 ''v'' 100),
            AddGuide (Guide2 ''h'' 200), MousePress (button_at LeftButton 10 205),
            RemoveGuideAt 0] init_canvas =
     Inr \<lparr>guides = [Guide2 ''h'' 200], hover_idx = Some 0, positioning_idx = Some 0,
          interactive = True, last_mouse_pos = Some (10, 205)\<rparr>"
    by (simp add: init_canvas_def setInteractive_def addGuide_def mousePressEvent_def
        button_at_def findGuideAt_def GUIDE_DRAG_RADIUS_def Guide2_def removeGuideAt_def
        py_del_def py_index_def Let_def)
  show ?thesis
    using no_dangling_index [of three_guide_canvas "RemoveGuideAt 0"
        "[SetInteractive True, AddGuide (Guide2 ''v'' 100), AddGuide (Guide2 ''h'' 200),
          MousePress (button_at LeftButton 10 205), RemoveGuideAt 0]"]
      pre step run
    by simp
qed

text \<open>
  C5. Switching the interactive flag off clears both indices whatever the state was;
  while the flag is off a press, a move, a release and a leave return the canvas
  unchanged; and after every sequence of operations from the initial canvas a canvas
  that is not interactive has both indices \<open>None\<close>.
\<close>

theorem passive_mode_clears:
  "hover_idx (setInteractive False c) = None \<and>
   positioning_idx (setInteractive False c) = None \<and>
   \<not> interactive (setInteractive False c) \<and>
   (\<not> interactive c \<longrightarrow>
      mousePressEvent e c = Inr c \<and> mouseMoveEvent w h e c = Inr c \<and>
      mouseReleaseEvent e c = c \<and> leaveEvent c = c) \<and>
   (\<exists>c'. run_ops xs init_canvas = Inr c' \<and> passive_clear c')"
proof -
  have "\<exists>c'. run_ops xs init_canvas = Inr c' \<and> passive_clear c'"
    using init_canvas_invariants run_ops_invariants [of init_canvas xs] by blast
  then show ?thesis
    by (simp add: setInteractive_def mousePressEvent_def mouseMoveEvent_def
        mouseReleaseEvent_def leaveEvent_def)
qed

text \<open>
  The example canvas with a hover and a drag in progress is switched off; and a run in
  which a drag is started, the mode is switched off, and a press and a move follow.
\<close>

theorem passive_mode_clears_witness:
  "setInteractive False three_guide_canvas =
     three_guide_canvas\<lparr>interactive := False, positioning_idx := None, hover_idx := None\<rparr> \<and>
   \<not> interactive (setInteractive False three_guide_canvas) \<and>
   mousePressEvent (button_at LeftButton 105 40) (setInteractive False three_guide_canvas) =
     Inr (setInteractive False three_guide_canvas) \<and>
   mouseMoveEvent 1920 1080 (button_at OtherButton 105 40)
       (setInteractive False three_guide_canvas) =
     Inr (setInteractive False three_guide_canvas) \<and>
   leaveEvent (setInteractive False three_guide_canvas) =
     setInteractive False three_guide_canvas \<and>
   run_ops [SetInteractive True, AddGuide (Guide2 ''v'' 100),
            MousePress (button_at LeftButton 105 40), SetInteractive False,
            MousePress (button_at LeftButton 105 40),
            MouseMove 1920 1080 (button_at OtherButton 100 40)] init_canvas =
     Inr \<lparr>guides = [Guide2 ''v'' 100], hover_idx = None, positioning_idx = None,
          interactive = False, last_mouse_pos = Some (105, 40)\<rparr> \<and>
   passive_clear \<lparr>guides = [Guide2 ''v'' 100], hover_idx = None, positioning_idx = None,
          interactive = False, last_mouse_pos = Some (105, 40)\<rparr>"
proof -
  have off: "setInteractive False three_guide_canvas =
     three_guide_canvas\<lparr>interactive := False, positioning_idx := None, hover_idx := None\<rparr>"
    by (simp add: setInteractive_def)
  have flag: "\<not> interactive (setInteractive False three_guide_canvas)"
    by (simp add: setInteractive_def)
  have run: "run_ops [SetInteractive True, AddGuide (Guide2 ''v'' 100),
            MousePress (button_at LeftButton 105 40), SetInteractive False,
            MousePress (button_at LeftButton 105 40),
            MouseMove 1920 1080 (button_at OtherButton 100 40)] init_canvas =
     Inr \<lparr>guides = [Guide2 ''v'' 100], hover_idx = None, positioning_idx = None,
          interactive = False, last_mouse_pos = Some (105, 40)\<rparr>"
    by (simp add: init_canvas_def setInteractive_def addGuide_def mousePressEvent_def
        mouseMoveEvent_def button_at_def findGuideAt_def GUIDE_DRAG_RADIUS_def Guide2_def Let_def)
  show ?thesis
    using passive_mode_clears [of "setInteractive False three_guide_canvas"
        "button_at LeftButton 105 40" 1920 1080
        "[SetInteractive True, AddGuide (Guide2 ''v'' 100),
          MousePress (button_at LeftButton 105 40), SetInteractive False,
          MousePress (button_at LeftButton 105 40),
          MouseMove 1920 1080 (button_at OtherButton 100 40)]"]
      passive_mode_clears [of "setInteractive False three_guide_canvas"
        "button_at OtherButton 105 40" 1920 1080 "[]"]
      off flag run
    by simp
qed

text \<open>
  C10. Whenever a guide is being positioned the hover index equals the positioning
  index: this holds initially, every operation keeps it, and so it holds after every
  sequence of operations from the initial canvas, until a press ends the drag.
\<close>

theorem drag_keeps_highlight:
  "hover_follows_drag init_canvas \<and>
   (hover_follows_drag c \<and> apply_op x c = Inr c' \<longrightarrow> hover_follows_drag c') \<and>
   (\<exists>c1. run_ops xs init_canvas = Inr c1 \<and> hover_follows_drag c1)"
  using init_canvas_invariants apply_op_hover_follows_drag [of c x c']
    run_ops_invariants [of init_canvas xs]
  by blast

text \<open>
  A leave event during a drag; and a run in which the second guide is dragged, the
  pointer leaves, and the first guide is removed with the secondary button, so that the
  dragged guide moves down to index 0 together with its highlight.
\<close>

theorem drag_keeps_highlight_witness:
  "hover_follows_drag (one_guide_canvas\<lparr>positioning_idx := Some 0, hover_idx := Some 0\<rparr>) \<and>
   apply_op Leave (one_guide_canvas\<lparr>positioning_idx := Some 0, hover_idx := Some 0\<rparr>) =
     Inr (one_guide_canvas\<lparr>positioning_idx := Some 0, hover_idx := Some 0\<rparr>) \<and>
   run_ops [SetInteractive True, AddGuide (Guide2 ''h'' 50), AddGuide (Guide2 ''v'' 100),
            MousePress (button_at LeftButton 105 400),
            MouseMove 1920 1080 (button_at OtherButton 700 45), Leave,
            MousePress (button_at RightButton 300 52)] init_canvas =
     Inr \<lparr>guides = [Guide2 ''v'' 700], hover_idx = Some 0, positioning_idx = Some 0,
          interactive = True, last_mouse_pos = Some (300, 52)\<rparr> \<and>
   hover_follows_drag \<lparr>guides = [Guide2 ''v'' 700], hover_idx = Some 0,
          positioning_idx = Some 0, interactive = True, last_mouse_pos = Some (300, 52)\<rparr>"
proof -
  have pre: "hover_follows_drag
      (one_guide_canvas\<lparr>positioning_idx := Some 0, hover_idx := Some 0\<rparr>)"
    by (simp add: hover_follows_drag_def)
  have step: "apply_op Leave (one_guide_canvas\<lparr>positioning_idx := Some 0, hover_idx := Some 0\<rparr>) =
     Inr (one_guide_canvas\<lparr>positioning_idx := Some 0, hover_idx := Some 0\<rparr>)"
    by (simp add: leaveEvent_def)
  have run: "run_ops [SetInteractive True, AddGuide (Guide2 ''h'' 50),
            AddGuide (Guide2 ''v'' 100), MousePress (button_at LeftButton 105 400),
            MouseMove 1920 1080 (button_at OtherButton 700 45), Leave,
            MousePress (button_at RightButton 300 52)] init_canvas =
     Inr \<lparr>guides = [Guide2 ''v'' 700], hover_idx = Some 0, positioning_idx = Some 0,
          interactive = True, last_mouse_pos = Some (300, 52)\<rparr>"
    by (simp add: init_canvas_def setInteractive_def addGuide_def mousePressEvent_def
        mouseMoveEvent_def leaveEvent_def button_at_def findGuideAt_def
        GUIDE_DRAG_RADIUS_def Guide2_def removeGuideAt_def py_del_def py_index_def Let_def)
  show ?thesis
    using drag_keeps_highlight [of
        "one_guide_canvas\<lparr>positioning_idx := Some 0, hover_idx := Some 0\<rparr>" Leave
        "one_guide_canvas\<lparr>positioning_idx := Some 0, hover_idx := Some 0\<rparr>"
        "[SetInteractive True, AddGuide (Guide2 ''h'' 50), AddGuide (Guide2 ''v'' 100),
          MousePress (button_at LeftButton 105 400),
          MouseMove 1920 1080 (button_at OtherButton 700 45), Leave,
          MousePress (button_at RightButton 300 52)]"]
      pre step run
    by simp
qed

section \<open>Loading the persisted guides\<close>










section \<open>Adding a guide with the middle button\<close>

text \<open>
  C8 (what the code does). With the panel set to blue, thickness 5, dashed, the panel's
  own add request builds a guide with those values, but a middle-button press on the
  canvas appends \<^verbatim>\<open>Guide('v', x)\<close>: orange, thickness 2, solid, the defaults written in
  the dataclass. The handler reads nothing of the panel or of the main window.
\<close>

theorem middle_click_ignores_panel_defaults:
  "emit_add ''v'' (300, 40) (0, 0) blue_panel =
     \<lparr>orientation = ''v'', pos = 300, color = (0, 0, 255, 255), thickness = 5,
      style_name = ''Dashed''\<rparr> \<and>
   mousePressEvent (button_at MiddleButton 300 40) one_guide_canvas =
     Inr (one_guide_canvas
           \<lparr>guides := [Guide2 ''v'' 100,
                \<lparr>orientation = ''v'', pos = 300, color = (255, 140, 0, 255), thickness = 2,
                 style_name = ''Solid''\<rparr>],
            last_mouse_pos := Some (300, 40)\<rparr>)"
  by (simp add: emit_add_def blue_panel_def mousePressEvent_def button_at_def
      one_guide_canvas_def addGuide_def Guide2_def)

end
